theory Spec2Isabelle
  imports Complex_Main
begin

section \<open>The synthetic cohort generator\<close>

text \<open>
  A shallow embedding of \<^verbatim>\<open>generate_synthetic_cohort.py\<close>. The script is one straight
  line of numpy array operations over a global random stream; its only functions are
  \<^verbatim>\<open>z\<close>, which standardises a predictor of the risk score, and \<^verbatim>\<open>add_missing\<close>.

  \<^item> A one-dimensional array is a list. Elementwise numpy operations are maps.
  \<^item> Floating-point numbers are idealised as real numbers; NaN, which the script only
    ever produces by assigning \<^verbatim>\<open>np.nan\<close>, is \<open>None\<close> in a \<open>real option\<close>.
  \<^item> The random stream is an input: the record \<open>draws\<close> has one field for every call of
    \<^verbatim>\<open>np.random.*\<close> whose result reaches the table, in program order. A call with
    \<^verbatim>\<open>size = N\<close> returns an array whose \<open>i\<close>-th element is the field applied to \<open>i\<close>. The
    types carry what the sampler guarantees: a Bernoulli trial is a \<open>bool\<close>, a Poisson
    count a \<open>nat\<close>, a choice among labels a value of an enumeration.
  \<^item> Console output and the CSV file are not modelled; the result of a run is the table.
  \<^item> Section 8 of the script copies arrays and then writes into the copies, so that part
    runs on an explicit store of arrays.
\<close>

subsection \<open>numpy primitives\<close>

definition N :: nat where
  "N = 2400"

text \<open>\<^verbatim>\<open>np.random.<dist>(..., N)\<close>: an array of \<open>n\<close> draws.\<close>

definition sample :: "nat \<Rightarrow> (nat \<Rightarrow> 'a) \<Rightarrow> 'a list" where
  "sample n f = map f [0..<n]"

text \<open>\<^verbatim>\<open>np.random.binomial(1, p, N)\<close>: an integer array of zeros and ones.\<close>

definition binomial1 :: "nat \<Rightarrow> (nat \<Rightarrow> bool) \<Rightarrow> int list" where
  "binomial1 n f = sample n (\<lambda>i. if f i then 1 else 0)"

text \<open>\<^verbatim>\<open>np.random.poisson(lam, N)\<close>: an integer array of counts.\<close>

definition poisson :: "nat \<Rightarrow> (nat \<Rightarrow> nat) \<Rightarrow> int list" where
  "poisson n f = sample n (\<lambda>i. int (f i))"

text \<open>\<^verbatim>\<open>np.arange(a, b)\<close> for natural bounds.\<close>

definition np_arange :: "nat \<Rightarrow> nat \<Rightarrow> int list" where
  "np_arange a b = map int [a..<b]"

text \<open>\<^verbatim>\<open>np.clip(x, lo, hi)\<close> is \<^verbatim>\<open>minimum(maximum(x, lo), hi)\<close>, elementwise.\<close>

definition np_clip :: "('a::linorder) list \<Rightarrow> 'a \<Rightarrow> 'a \<Rightarrow> 'a list" where
  "np_clip xs lo hi = map (\<lambda>x. min (max x lo) hi) xs"

text \<open>\<^verbatim>\<open>np.where(c, x, y)\<close> on three arrays; a scalar argument is broadcast with
  \<open>replicate\<close> by the caller.\<close>

definition np_where :: "bool list \<Rightarrow> 'a list \<Rightarrow> 'a list \<Rightarrow> 'a list" where
  "np_where c xs ys = map (\<lambda>(b, x, y). if b then x else y) (zip c (zip xs ys))"

text \<open>\<^verbatim>\<open>arr == v\<close>: the boolean mask.\<close>

definition eq_mask :: "'a list \<Rightarrow> 'a \<Rightarrow> bool list" where
  "eq_mask xs v = map (\<lambda>x. x = v) xs"

text \<open>\<^verbatim>\<open>arr < v\<close>: the boolean mask.\<close>

definition lt_mask :: "('a::linorder) list \<Rightarrow> 'a \<Rightarrow> bool list" where
  "lt_mask xs v = map (\<lambda>x. x < v) xs"

text \<open>\<^verbatim>\<open>a & b\<close> on boolean masks.\<close>

definition and_mask :: "bool list \<Rightarrow> bool list \<Rightarrow> bool list" where
  "and_mask a b = map (\<lambda>(x, y). x \<and> y) (zip a b)"

text \<open>Conversion of a float to an integer (\<^verbatim>\<open>astype(int)\<close>, \<^verbatim>\<open>int(x)\<close>) truncates
  toward zero.\<close>

definition int_of_float :: "real \<Rightarrow> int" where
  "int_of_float x = (if 0 \<le> x then \<lfloor>x\<rfloor> else \<lceil>x\<rceil>)"

definition astype_int :: "real list \<Rightarrow> int list" where
  "astype_int xs = map int_of_float xs"

text \<open>\<^verbatim>\<open>np.rint\<close>: the nearest integer, a tie going to the even neighbour.\<close>

definition rint :: "real \<Rightarrow> int" where
  "rint x = (let f = \<lfloor>x\<rfloor>; r = x - of_int f in
     if r < 1 / 2 then f else if 1 / 2 < r then f + 1 else if even f then f else f + 1)"

text \<open>\<^verbatim>\<open>arr.round(k)\<close>: numpy scales by \<open>10 ^ k\<close>, applies \<^verbatim>\<open>rint\<close> and scales back.\<close>

definition round_to :: "nat \<Rightarrow> real \<Rightarrow> real" where
  "round_to k x = of_int (rint (x * 10 ^ k)) / 10 ^ k"

definition np_round :: "real list \<Rightarrow> nat \<Rightarrow> real list" where
  "np_round xs k = map (round_to k) xs"

subsection \<open>The random stream\<close>

datatype gender_label = M | F

datatype race_label = WHITE | BLACK | HISPANIC | ASIAN | OTHER_RACE | UNKNOWN_RACE

datatype insurance_label = Medicare | Medicaid | Other

datatype marital_label = MARRIED | SINGLE | DIVORCED | WIDOWED | UNKNOWN_MARITAL

datatype admission_label = URGENT | EMERGENCY | OBSERVATION

fun gender_str :: "gender_label \<Rightarrow> string" where
  "gender_str M = ''M''"
| "gender_str F = ''F''"





text \<open>
  The draws, in the order of the script. The nine \<open>choice_*_idx\<close> fields are the answers
  of \<^verbatim>\<open>np.random.choice(len(arr), n_miss, replace=False)\<close> inside \<^verbatim>\<open>add_missing\<close>.
\<close>

record draws =
  normal_age :: "nat \<Rightarrow> real"
  choice_gender :: "nat \<Rightarrow> gender_label"
  choice_race :: "nat \<Rightarrow> race_label"
  choice_insurance :: "nat \<Rightarrow> insurance_label"
  choice_marital :: "nat \<Rightarrow> marital_label"
  lognormal_los :: "nat \<Rightarrow> real"
  choice_admission :: "nat \<Rightarrow> admission_label"
  random_prior :: "nat \<Rightarrow> real"
  poisson_prior :: "nat \<Rightarrow> nat"
  binomial_icu :: "nat \<Rightarrow> bool"
  lognormal_icu :: "nat \<Rightarrow> real"
  poisson_diagnoses :: "nat \<Rightarrow> nat"
  binomial_cerebral_infarction :: "nat \<Rightarrow> bool"
  binomial_ich :: "nat \<Rightarrow> bool"
  binomial_epilepsy :: "nat \<Rightarrow> bool"
  binomial_parkinson :: "nat \<Rightarrow> bool"
  binomial_alzheimer :: "nat \<Rightarrow> bool"
  binomial_ms :: "nat \<Rightarrow> bool"
  binomial_diabetes :: "nat \<Rightarrow> bool"
  binomial_chf :: "nat \<Rightarrow> bool"
  binomial_copd :: "nat \<Rightarrow> bool"
  binomial_ckd :: "nat \<Rightarrow> bool"
  lognormal_creatinine :: "nat \<Rightarrow> real"
  normal_hgb_f :: "nat \<Rightarrow> real"
  normal_hgb_m :: "nat \<Rightarrow> real"
  lognormal_wbc :: "nat \<Rightarrow> real"
  lognormal_glucose :: "nat \<Rightarrow> real"
  normal_sodium :: "nat \<Rightarrow> real"
  normal_potassium :: "nat \<Rightarrow> real"
  normal_bun :: "nat \<Rightarrow> real"
  normal_platelet :: "nat \<Rightarrow> real"
  poisson_medications :: "nat \<Rightarrow> nat"
  binomial_anticoagulant :: "nat \<Rightarrow> bool"
  binomial_statin :: "nat \<Rightarrow> bool"
  binomial_insulin_dm :: "nat \<Rightarrow> bool"
  binomial_insulin_other :: "nat \<Rightarrow> bool"
  binomial_antiepileptic_ep :: "nat \<Rightarrow> bool"
  binomial_antiepileptic_other :: "nat \<Rightarrow> bool"
  binomial_readmit :: "nat \<Rightarrow> bool"
  choice_creatinine_idx :: "nat list"
  choice_hemoglobin_idx :: "nat list"
  choice_wbc_idx :: "nat list"
  choice_glucose_idx :: "nat list"
  choice_sodium_idx :: "nat list"
  choice_potassium_idx :: "nat list"
  choice_bun_idx :: "nat list"
  choice_platelet_idx :: "nat list"
  choice_medications_idx :: "nat list"
  random_mar :: "nat \<Rightarrow> real"

subsection \<open>Sections 1 to 6 of the script: the columns\<close>



definition gender :: "nat \<Rightarrow> draws \<Rightarrow> string list" where
  "gender n d = sample n (\<lambda>i. gender_str (choice_gender d i))"








definition had_icu_stay :: "nat \<Rightarrow> draws \<Rightarrow> int list" where
  "had_icu_stay n d = binomial1 n (binomial_icu d)"

definition icu_los_days :: "nat \<Rightarrow> draws \<Rightarrow> real list" where
  "icu_los_days n d =
     np_where (eq_mask (had_icu_stay n d) 1)
       (np_round (np_clip (sample n (lognormal_icu d)) 0.5 30.0) 1)
       (replicate n 0.0)"








definition dx_diabetes :: "nat \<Rightarrow> draws \<Rightarrow> int list" where
  "dx_diabetes n d = binomial1 n (binomial_diabetes d)"



definition dx_ckd :: "nat \<Rightarrow> draws \<Rightarrow> int list" where
  "dx_ckd n d = binomial1 n (binomial_ckd d)"

definition creatinine_base :: "nat \<Rightarrow> draws \<Rightarrow> real list" where
  "creatinine_base n d = sample n (lognormal_creatinine d)"

text \<open>The array after \<^verbatim>\<open>np.where\<close>, before clipping (line 117).\<close>

definition creatinine_shifted :: "nat \<Rightarrow> draws \<Rightarrow> real list" where
  "creatinine_shifted n d =
     np_where (eq_mask (dx_ckd n d) 1)
       (map (\<lambda>x. x * 1.8) (creatinine_base n d))
       (creatinine_base n d)"

definition creatinine :: "nat \<Rightarrow> draws \<Rightarrow> real list" where
  "creatinine n d = np_round (np_clip (creatinine_shifted n d) 0.3 8.0) 2"

definition hgb_base :: "nat \<Rightarrow> draws \<Rightarrow> real list" where
  "hgb_base n d =
     np_where (eq_mask (gender n d) ''F'')
       (sample n (normal_hgb_f d))
       (sample n (normal_hgb_m d))"

text \<open>The array after \<^verbatim>\<open>np.where\<close>, before clipping (line 124).\<close>

definition hemoglobin_shifted :: "nat \<Rightarrow> draws \<Rightarrow> real list" where
  "hemoglobin_shifted n d =
     np_where (eq_mask (dx_ckd n d) 1)
       (map (\<lambda>x. x - 1.5) (hgb_base n d))
       (hgb_base n d)"

definition hemoglobin :: "nat \<Rightarrow> draws \<Rightarrow> real list" where
  "hemoglobin n d = np_round (np_clip (hemoglobin_shifted n d) 5.0 19.0) 1"


definition glucose_base :: "nat \<Rightarrow> draws \<Rightarrow> real list" where
  "glucose_base n d = sample n (lognormal_glucose d)"

text \<open>The array after \<^verbatim>\<open>np.where\<close>, before clipping (line 132).\<close>

definition glucose_shifted :: "nat \<Rightarrow> draws \<Rightarrow> real list" where
  "glucose_shifted n d =
     np_where (eq_mask (dx_diabetes n d) 1)
       (map (\<lambda>x. x * 1.3) (glucose_base n d))
       (glucose_base n d)"

definition glucose :: "nat \<Rightarrow> draws \<Rightarrow> int list" where
  "glucose n d = astype_int (np_round (np_clip (glucose_shifted n d) 50 500) 0)"











subsection \<open>Arrays in a store\<close>

text \<open>
  \<^verbatim>\<open>add_missing\<close> copies its argument and writes into the copy, and the script later
  writes into one of the arrays that \<^verbatim>\<open>add_missing\<close> returned. Arrays are therefore
  objects in a store, named by their address; a new array gets the next free address.
  Exceptions are values of \<open>error\<close>.
\<close>

datatype error = ValueError | IndexError

datatype ndarray = IntArr "int list" | FloatArr "real option list"

fun len :: "ndarray \<Rightarrow> nat" where
  "len (IntArr xs) = length xs"
| "len (FloatArr xs) = length xs"

type_synonym addr = nat

type_synonym store = "ndarray list"

type_synonym 'a prog = "store \<Rightarrow> error + 'a \<times> store"

definition ret :: "'a \<Rightarrow> 'a prog" where
  "ret x s = Inr (x, s)"

definition bind :: "'a prog \<Rightarrow> ('a \<Rightarrow> 'b prog) \<Rightarrow> 'b prog" where
  "bind m f s = (case m s of Inl e \<Rightarrow> Inl e | Inr (x, s') \<Rightarrow> f x s')"

definition new_array :: "ndarray \<Rightarrow> addr prog" where
  "new_array a s = Inr (length s, s @ [a])"

fun to_float :: "ndarray \<Rightarrow> ndarray" where
  "to_float (IntArr xs) = FloatArr (map (\<lambda>v. Some (of_int v)) xs)"
| "to_float (FloatArr xs) = FloatArr xs"

text \<open>\<^verbatim>\<open>arr.astype(float)\<close> always allocates, also when \<^verbatim>\<open>arr\<close> holds floats already.\<close>

definition astype_float :: "addr \<Rightarrow> addr prog" where
  "astype_float a s = new_array (to_float (s ! a)) s"

text \<open>\<^verbatim>\<open>arr.copy()\<close>\<close>

definition copy :: "addr \<Rightarrow> addr prog" where
  "copy a s = new_array (s ! a) s"

definition put_nan :: "nat list \<Rightarrow> real option list \<Rightarrow> real option list" where
  "put_nan idx xs = fold (\<lambda>i a. a[i := None]) idx xs"

text \<open>\<^verbatim>\<open>arr[idx] = np.nan\<close> for an array of indices: in place. An index past the end
  raises IndexError; an integer array cannot hold NaN.\<close>

definition setitem_idx :: "addr \<Rightarrow> nat list \<Rightarrow> unit prog" where
  "setitem_idx a idx s =
     (case s ! a of
        IntArr xs \<Rightarrow> Inl ValueError
      | FloatArr xs \<Rightarrow>
          if list_all (\<lambda>i. i < length xs) idx
          then Inr ((), s[a := FloatArr (put_nan idx xs)])
          else Inl IndexError)"



text \<open>
  \<^verbatim>\<open>np.random.choice(pop, k, replace=False)\<close>. The sampler refuses a negative size and a
  sample larger than the population; otherwise it answers with \<open>idx\<close>, the draw.
  \<open>choice_ok\<close> is what the sampler guarantees about its answer: \<open>k\<close> indices below
  \<open>pop\<close>, no index twice.
\<close>

definition np_random_choice :: "nat \<Rightarrow> int \<Rightarrow> nat list \<Rightarrow> error + nat list" where
  "np_random_choice pop k idx = (if k < 0 \<or> int pop < k then Inl ValueError else Inr idx)"

definition choice_ok :: "nat \<Rightarrow> int \<Rightarrow> nat list \<Rightarrow> bool" where
  "choice_ok pop k idx \<longleftrightarrow>
     int (length idx) = k \<and> distinct idx \<and> list_all (\<lambda>i. i < pop) idx"

subsection \<open>Section 8 of the script: missing data\<close>

definition n_miss :: "nat \<Rightarrow> real \<Rightarrow> int" where
  "n_miss l pct = int_of_float (real l * pct / 100)"

definition add_missing :: "addr \<Rightarrow> real \<Rightarrow> nat list \<Rightarrow> addr prog" where
  "add_missing arr pct idx s =
     (case np_random_choice (len (s ! arr)) (n_miss (len (s ! arr)) pct) idx of
        Inl e \<Rightarrow> Inl e
      | Inr ix \<Rightarrow>
          bind (astype_float arr) (\<lambda>t.
          bind (copy t) (\<lambda>result.
          bind (setitem_idx result ix) (\<lambda>_.
          ret result))) s)"






subsection \<open>Section 9 of the script: the table\<close>

















subsection \<open>What the sampler guarantees\<close>




text \<open>The cells of an array after \<^verbatim>\<open>astype(float)\<close>.\<close>

fun float_cells :: "ndarray \<Rightarrow> real option list" where
  "float_cells (IntArr xs) = map (\<lambda>v. Some (of_int v)) xs"
| "float_cells (FloatArr xs) = xs"

subsection \<open>A sample run\<close>

text \<open>One stream of draws for the cohort of \<open>N\<close> rows, used to instantiate the theorems
  below.\<close>

definition example_draws :: draws where
  "example_draws =
     \<lparr>normal_age = (\<lambda>i. 17 + real i / 10),
      choice_gender = (\<lambda>i. if even i then F else M),
      choice_race = (\<lambda>i. WHITE),
      choice_insurance = (\<lambda>i. Medicare),
      choice_marital = (\<lambda>i. SINGLE),
      lognormal_los = (\<lambda>i. real i / 8),
      choice_admission = (\<lambda>i. URGENT),
      random_prior = (\<lambda>i. if even i then 0.3 else 0.7),
      poisson_prior = (\<lambda>i. i mod 11),
      binomial_icu = (\<lambda>i. i mod 4 = 0),
      lognormal_icu = (\<lambda>i. real i / 50),
      poisson_diagnoses = (\<lambda>i. i mod 25),
      binomial_cerebral_infarction = (\<lambda>i. i mod 5 = 0),
      binomial_ich = (\<lambda>i. i mod 11 = 0),
      binomial_epilepsy = (\<lambda>i. i mod 6 = 0),
      binomial_parkinson = (\<lambda>i. i mod 12 = 0),
      binomial_alzheimer = (\<lambda>i. i mod 14 = 0),
      binomial_ms = (\<lambda>i. i mod 25 = 0),
      binomial_diabetes = (\<lambda>i. i mod 3 = 0),
      binomial_chf = (\<lambda>i. i mod 5 = 1),
      binomial_copd = (\<lambda>i. i mod 7 = 0),
      binomial_ckd = (\<lambda>i. i mod 6 = 1),
      lognormal_creatinine = (\<lambda>i. (1 + real i) / 200),
      normal_hgb_f = (\<lambda>i. 12.2),
      normal_hgb_m = (\<lambda>i. 13.8 + real i / 1000),
      lognormal_wbc = (\<lambda>i. 8.17),
      lognormal_glucose = (\<lambda>i. 121.5 + real i),
      normal_sodium = (\<lambda>i. 139.4),
      normal_potassium = (\<lambda>i. 4.1),
      normal_bun = (\<lambda>i. 12),
      normal_platelet = (\<lambda>i. 220),
      poisson_medications = (\<lambda>i. i mod 30),
      binomial_anticoagulant = (\<lambda>i. i mod 3 = 1),
      binomial_statin = (\<lambda>i. i mod 3 = 2),
      binomial_insulin_dm = (\<lambda>i. even i),
      binomial_insulin_other = (\<lambda>i. False),
      binomial_antiepileptic_ep = (\<lambda>i. True),
      binomial_antiepileptic_other = (\<lambda>i. i mod 8 = 0),
      binomial_readmit = (\<lambda>i. i mod 4 = 1),
      choice_creatinine_idx = [0..<108],
      choice_hemoglobin_idx = [0..<172],
      choice_wbc_idx = [0..<139],
      choice_glucose_idx = [0..<300],
      choice_sodium_idx = [0..<96],
      choice_potassium_idx = [0..<146],
      choice_bun_idx = [0..<199],
      choice_platelet_idx = [0..<84],
      choice_medications_idx = [0..<60],
      random_mar = (\<lambda>i. if i < 303 then 0.01 else 0.5)\<rparr>"

subsection \<open>Runs that differ in one draw\<close>





subsection \<open>A small store and further observations\<close>

definition ten_ints :: store where
  "ten_ints = [IntArr [1, 2, 3, 4, 5, 6, 7, 8, 9, 10]]"



section \<open>Properties\<close>

subsection \<open>Elementwise operations and rounding\<close>

lemma length_sample: "length (sample n f) = n" by (simp add: sample_def)
lemma nth_sample: "i < n \<Longrightarrow> sample n f ! i = f i" by (simp add: sample_def)
lemma length_binomial1: "length (binomial1 n f) = n" by (simp add: binomial1_def length_sample)
lemma nth_binomial1: "i < n \<Longrightarrow> binomial1 n f ! i = (if f i then 1 else 0)"
  by (simp add: binomial1_def nth_sample)
lemma length_poisson: "length (poisson n f) = n" by (simp add: poisson_def length_sample)
lemma nth_poisson: "i < n \<Longrightarrow> poisson n f ! i = int (f i)" by (simp add: poisson_def nth_sample)
lemma length_np_clip: "length (np_clip xs lo hi) = length xs" by (simp add: np_clip_def)
lemma nth_np_clip: "i < length xs \<Longrightarrow> np_clip xs lo hi ! i = min (max (xs ! i) lo) hi"
  by (simp add: np_clip_def)
lemma length_np_round: "length (np_round xs k) = length xs" by (simp add: np_round_def)
lemma nth_np_round: "i < length xs \<Longrightarrow> np_round xs k ! i = round_to k (xs ! i)"
  by (simp add: np_round_def)
lemma length_astype_int: "length (astype_int xs) = length xs" by (simp add: astype_int_def)
lemma nth_astype_int: "i < length xs \<Longrightarrow> astype_int xs ! i = int_of_float (xs ! i)"
  by (simp add: astype_int_def)
lemma length_eq_mask: "length (eq_mask xs v) = length xs" by (simp add: eq_mask_def)
lemma nth_eq_mask: "i < length xs \<Longrightarrow> eq_mask xs v ! i = (xs ! i = v)" by (simp add: eq_mask_def)
lemma length_lt_mask: "length (lt_mask xs v) = length xs" by (simp add: lt_mask_def)
lemma length_and_mask: "length (and_mask a b) = min (length a) (length b)" by (simp add: and_mask_def)
lemma length_np_where: "length (np_where c xs ys) = min (length c) (min (length xs) (length ys))"
  by (simp add: np_where_def)
lemma nth_np_where:
  "i < length c \<Longrightarrow> i < length xs \<Longrightarrow> i < length ys \<Longrightarrow>
     np_where c xs ys ! i = (if c ! i then xs ! i else ys ! i)"
  by (simp add: np_where_def)

lemma rint_cases: "rint x = \<lfloor>x\<rfloor> \<or> rint x = \<lfloor>x\<rfloor> + 1"
  by (simp add: rint_def Let_def)

lemma rint_of_int: "rint (of_int k) = k"
  by (simp add: rint_def Let_def)

lemma rint_ge: "of_int a \<le> x \<Longrightarrow> a \<le> rint x"
proof -
  assume "of_int a \<le> x"
  then have "a \<le> \<lfloor>x\<rfloor>" by (simp add: le_floor_iff)
  then show ?thesis using rint_cases [of x] by linarith
qed

lemma rint_le: "x \<le> of_int b \<Longrightarrow> rint x \<le> b"
proof -
  assume h: "x \<le> of_int b"
  then have fl: "\<lfloor>x\<rfloor> \<le> b" by (simp add: floor_le_iff) 
  show ?thesis
  proof (cases "\<lfloor>x\<rfloor> = b")
    case True
    then have "x = of_int b" using h of_int_floor_le [of x] by linarith
    then show ?thesis by (simp add: rint_of_int)
  next
    case False
    then show ?thesis using fl rint_cases [of x] by linarith
  qed
qed




lemma round_to_ge: "of_int a / 10 ^ k \<le> x \<Longrightarrow> of_int a / 10 ^ k \<le> round_to k x"
  by (simp add: round_to_def divide_right_mono rint_ge pos_divide_le_eq)

lemma round_to_le: "x \<le> of_int b / 10 ^ k \<Longrightarrow> round_to k x \<le> of_int b / 10 ^ k"
  by (simp add: round_to_def divide_right_mono rint_le pos_le_divide_eq)



subsection \<open>The store, the missingness stage and the assembled table\<close>

lemma to_float_cells: "to_float a = FloatArr (float_cells a)"
  by (cases a) simp_all

lemma length_float_cells: "length (float_cells a) = len a"
  by (cases a) simp_all

lemma length_put_nan: "length (put_nan idx xs) = length xs"
  unfolding put_nan_def by (induction idx arbitrary: xs) simp_all

lemma nth_put_nan:
  "i < length xs \<Longrightarrow> put_nan idx xs ! i = (if i \<in> set idx then None else xs ! i)"
  unfolding put_nan_def
proof (induction idx arbitrary: xs)
  case Nil
  then show ?case by simp
next
  case (Cons j idx)
  then show ?case by (simp add: nth_list_update)
qed

lemma int_of_float_nonneg: "0 \<le> x \<Longrightarrow> int_of_float x = \<lfloor>x\<rfloor>"
  by (simp add: int_of_float_def)

lemma n_miss_floor: "0 \<le> pct \<Longrightarrow> n_miss l pct = \<lfloor>real l * pct / 100\<rfloor>"
  by (simp add: n_miss_def int_of_float_nonneg)

lemma n_miss_bounds:
  assumes "0 \<le> pct" "pct \<le> 100"
  shows "0 \<le> n_miss l pct" and "n_miss l pct \<le> int l"
proof -
  have nn: "0 \<le> real l * pct / 100" using assms by simp
  show "0 \<le> n_miss l pct" using nn by (simp add: n_miss_floor assms)
  have "real l * pct \<le> real l * 100" using assms by (intro mult_left_mono) simp_all
  then have "real l * pct / 100 \<le> real l" by simp
  then have "\<lfloor>real l * pct / 100\<rfloor> \<le> \<lfloor>real l\<rfloor>" by (rule floor_mono)
  then show "n_miss l pct \<le> int l" by (simp add: n_miss_floor assms)
qed

lemma add_missing_eq:
  assumes a: "a < length s"
    and pct: "0 \<le> pct" "pct \<le> 100"
    and idx: "list_all (\<lambda>i. i < len (s ! a)) idx"
  shows "add_missing a pct idx s =
    Inr (Suc (length s),
         s @ [FloatArr (float_cells (s ! a)), FloatArr (put_nan idx (float_cells (s ! a)))])"
  using a idx n_miss_bounds [OF pct, of "len (s ! a)"]
  by (simp add: add_missing_def np_random_choice_def bind_def astype_float_def copy_def
      new_array_def setitem_idx_def ret_def nth_append to_float_cells length_float_cells
      list_update_append)



lemma length_np_arange: "length (np_arange a b) = b - a" by (simp add: np_arange_def)

lemmas np_lengths = length_sample length_binomial1 length_poisson length_np_clip length_np_round
  length_astype_int length_eq_mask length_lt_mask length_and_mask length_np_where length_np_arange

lemma length_gender: "length (gender n d) = n" by (simp add: gender_def np_lengths)
lemma length_had_icu_stay: "length (had_icu_stay n d) = n" by (simp add: had_icu_stay_def np_lengths)
lemma length_dx_diabetes: "length (dx_diabetes n d) = n" by (simp add: dx_diabetes_def np_lengths)
lemma length_dx_ckd: "length (dx_ckd n d) = n" by (simp add: dx_ckd_def np_lengths)
lemma length_creatinine_base: "length (creatinine_base n d) = n" by (simp add: creatinine_base_def np_lengths)
lemma length_creatinine_shifted: "length (creatinine_shifted n d) = n"
  by (simp add: creatinine_shifted_def length_creatinine_base length_dx_ckd np_lengths)
lemma length_hgb_base: "length (hgb_base n d) = n" by (simp add: hgb_base_def length_gender np_lengths)
lemma length_hemoglobin_shifted: "length (hemoglobin_shifted n d) = n"
  by (simp add: hemoglobin_shifted_def length_hgb_base length_dx_ckd np_lengths)
lemma length_glucose_base: "length (glucose_base n d) = n" by (simp add: glucose_base_def np_lengths)
lemma length_glucose_shifted: "length (glucose_shifted n d) = n"
  by (simp add: glucose_shifted_def length_glucose_base length_dx_diabetes np_lengths)


lemma choice_ok_in_range: "choice_ok pop k idx \<Longrightarrow> list_all (\<lambda>i. i < pop) idx"
  by (simp add: choice_ok_def)















subsection \<open>Ranges of the clipped arrays\<close>

lemma clip_round_range:
  assumes "of_int a / 10 ^ k = lo" "of_int b / 10 ^ k = hi" "lo \<le> hi"
  shows "lo \<le> round_to k (min (max x lo) hi) \<and> round_to k (min (max x lo) hi) \<le> hi"
proof -
  have "lo \<le> min (max x lo) hi" using assms(3) by simp
  then have "lo \<le> round_to k (min (max x lo) hi)"
    using round_to_ge [of a k "min (max x lo) hi"] assms(1) by simp
  moreover have "min (max x lo) hi \<le> hi" by simp
  then have "round_to k (min (max x lo) hi) \<le> hi"
    using round_to_le [of "min (max x lo) hi" b k] assms(2) by simp
  ultimately show ?thesis by simp
qed














subsection \<open>Clipped fields of the table\<close>








subsection \<open>Conditional laboratory adjustments\<close>

lemma nth_dx_ckd: "i < n \<Longrightarrow> dx_ckd n d ! i = (if binomial_ckd d i then 1 else 0)"
  by (simp add: dx_ckd_def nth_binomial1)

lemma nth_dx_diabetes: "i < n \<Longrightarrow> dx_diabetes n d ! i = (if binomial_diabetes d i then 1 else 0)"
  by (simp add: dx_diabetes_def nth_binomial1)

lemma nth_had_icu_stay: "i < n \<Longrightarrow> had_icu_stay n d ! i = (if binomial_icu d i then 1 else 0)"
  by (simp add: had_icu_stay_def nth_binomial1)

lemma nth_creatinine_shifted:
  "i < n \<Longrightarrow> creatinine_shifted n d ! i =
     (if dx_ckd n d ! i = 1 then creatinine_base n d ! i * 1.8 else creatinine_base n d ! i)"
  by (simp add: creatinine_shifted_def nth_np_where nth_eq_mask length_dx_ckd
      length_creatinine_base np_lengths)

lemma nth_hemoglobin_shifted:
  "i < n \<Longrightarrow> hemoglobin_shifted n d ! i =
     (if dx_ckd n d ! i = 1 then hgb_base n d ! i - 1.5 else hgb_base n d ! i)"
  by (simp add: hemoglobin_shifted_def nth_np_where nth_eq_mask length_dx_ckd
      length_hgb_base np_lengths)

lemma nth_glucose_shifted:
  "i < n \<Longrightarrow> glucose_shifted n d ! i =
     (if dx_diabetes n d ! i = 1 then glucose_base n d ! i * 1.3 else glucose_base n d ! i)"
  by (simp add: glucose_shifted_def nth_np_where nth_eq_mask length_dx_diabetes
      length_glucose_base np_lengths)

lemma nth_creatinine:
  "i < n \<Longrightarrow> creatinine n d ! i = round_to 2 (min (max (creatinine_shifted n d ! i) 0.3) 8.0)"
  by (simp add: creatinine_def nth_np_round nth_np_clip length_creatinine_shifted np_lengths)

lemma nth_hemoglobin:
  "i < n \<Longrightarrow> hemoglobin n d ! i = round_to 1 (min (max (hemoglobin_shifted n d ! i) 5.0) 19.0)"
  by (simp add: hemoglobin_def nth_np_round nth_np_clip length_hemoglobin_shifted np_lengths)

lemma nth_glucose:
  "i < n \<Longrightarrow> glucose n d ! i =
     int_of_float (round_to 0 (min (max (glucose_shifted n d ! i) 50) 500))"
  by (simp add: glucose_def nth_astype_int nth_np_round nth_np_clip length_glucose_shifted
      np_lengths)


text \<open>
  Claim C5. In every row the two comorbidity flags are 0 or 1. Where dx_ckd is 1 the
  creatinine before clipping is the base draw times 1.8 and the hemoglobin before clipping
  is the base draw minus 1.5; where dx_diabetes is 1 the glucose before clipping is the base
  draw times 1.3; where a flag is 0 the value is the base draw itself. The final value of
  each of the three is the clipped and then rounded value of that adjusted number.
\<close>

theorem conditional_lab_adjustments:
  assumes "i < n"
  shows "(dx_ckd n d ! i = 1 \<or> dx_ckd n d ! i = 0) \<and>
    (dx_diabetes n d ! i = 1 \<or> dx_diabetes n d ! i = 0) \<and>
    creatinine_base n d ! i = lognormal_creatinine d i \<and>
    glucose_base n d ! i = lognormal_glucose d i \<and>
    hgb_base n d ! i = (if gender n d ! i = ''F'' then normal_hgb_f d i else normal_hgb_m d i) \<and>
    (dx_ckd n d ! i = 1 \<longrightarrow>
       creatinine_shifted n d ! i = creatinine_base n d ! i * 1.8 \<and>
       hemoglobin_shifted n d ! i = hgb_base n d ! i - 1.5) \<and>
    (dx_ckd n d ! i = 0 \<longrightarrow>
       creatinine_shifted n d ! i = creatinine_base n d ! i \<and>
       hemoglobin_shifted n d ! i = hgb_base n d ! i) \<and>
    (dx_diabetes n d ! i = 1 \<longrightarrow> glucose_shifted n d ! i = glucose_base n d ! i * 1.3) \<and>
    (dx_diabetes n d ! i = 0 \<longrightarrow> glucose_shifted n d ! i = glucose_base n d ! i) \<and>
    creatinine n d ! i = round_to 2 (min (max (creatinine_shifted n d ! i) 0.3) 8.0) \<and>
    hemoglobin n d ! i = round_to 1 (min (max (hemoglobin_shifted n d ! i) 5.0) 19.0) \<and>
    glucose n d ! i = int_of_float (round_to 0 (min (max (glucose_shifted n d ! i) 50) 500))"
proof -
  have flags: "(dx_ckd n d ! i = 1 \<or> dx_ckd n d ! i = 0) \<and>
      (dx_diabetes n d ! i = 1 \<or> dx_diabetes n d ! i = 0)"
    using assms by (simp add: nth_dx_ckd nth_dx_diabetes)
  have base: "creatinine_base n d ! i = lognormal_creatinine d i \<and>
      glucose_base n d ! i = lognormal_glucose d i \<and>
      hgb_base n d ! i = (if gender n d ! i = ''F'' then normal_hgb_f d i else normal_hgb_m d i)"
    using assms
    by (simp add: creatinine_base_def glucose_base_def hgb_base_def nth_sample nth_np_where
        nth_eq_mask length_gender np_lengths)
  have shifted: "(dx_ckd n d ! i = 1 \<longrightarrow>
       creatinine_shifted n d ! i = creatinine_base n d ! i * 1.8 \<and>
       hemoglobin_shifted n d ! i = hgb_base n d ! i - 1.5) \<and>
    (dx_ckd n d ! i = 0 \<longrightarrow>
       creatinine_shifted n d ! i = creatinine_base n d ! i \<and>
       hemoglobin_shifted n d ! i = hgb_base n d ! i) \<and>
    (dx_diabetes n d ! i = 1 \<longrightarrow> glucose_shifted n d ! i = glucose_base n d ! i * 1.3) \<and>
    (dx_diabetes n d ! i = 0 \<longrightarrow> glucose_shifted n d ! i = glucose_base n d ! i)"
    using assms by (simp add: nth_creatinine_shifted nth_hemoglobin_shifted nth_glucose_shifted)
  show ?thesis
    using flags base shifted nth_creatinine [OF assms, of d] nth_hemoglobin [OF assms, of d]
      nth_glucose [OF assms, of d]
    by blast
qed

theorem conditional_lab_adjustments_witness:
  "(1::nat) < N \<and> (3::nat) < N \<and>
   dx_ckd N example_draws ! 1 = 1 \<and>
   creatinine_base N example_draws ! 1 = 1 / 100 \<and>
   creatinine_shifted N example_draws ! 1 = 1 / 100 * 1.8 \<and>
   hgb_base N example_draws ! 1 = 13.801 \<and>
   hemoglobin_shifted N example_draws ! 1 = 13.801 - 1.5 \<and>
   hemoglobin N example_draws ! 1 = 12.3 \<and>
   dx_diabetes N example_draws ! 1 = 0 \<and>
   glucose_shifted N example_draws ! 1 = 122.5 \<and>
   dx_ckd N example_draws ! 3 = 0 \<and>
   creatinine_shifted N example_draws ! 3 = 1 / 50 \<and>
   dx_diabetes N example_draws ! 3 = 1 \<and>
   glucose_shifted N example_draws ! 3 = 124.5 * 1.3 \<and>
   glucose N example_draws ! 3 = 162"
proof -
  have h1: "(1::nat) < N" and h3: "(3::nat) < N" by (simp_all add: N_def)
  have sel:
    "binomial_ckd example_draws = (\<lambda>i. i mod 6 = 1)"
    "binomial_diabetes example_draws = (\<lambda>i. i mod 3 = 0)"
    "choice_gender example_draws = (\<lambda>i. if even i then F else M)"
    "lognormal_creatinine example_draws = (\<lambda>i. (1 + real i) / 200)"
    "lognormal_glucose example_draws = (\<lambda>i. 121.5 + real i)"
    "normal_hgb_m example_draws = (\<lambda>i. 13.8 + real i / 1000)"
    by (simp_all add: example_draws_def)
  have f1: "dx_ckd N example_draws ! 1 = 1" "dx_diabetes N example_draws ! 1 = 0"
    using h1 by (simp_all add: nth_dx_ckd nth_dx_diabetes sel)
  have f3: "dx_ckd N example_draws ! 3 = 0" "dx_diabetes N example_draws ! 3 = 1"
    using h3 by (simp_all add: nth_dx_ckd nth_dx_diabetes sel)
  have g1: "gender N example_draws ! 1 = ''M''"
    using h1 by (simp add: gender_def nth_sample sel)
  note t1 = conditional_lab_adjustments [OF h1, of example_draws]
  note t3 = conditional_lab_adjustments [OF h3, of example_draws]
  have c1: "creatinine_base N example_draws ! 1 = 1 / 100"
  proof -
    from t1 have "creatinine_base N example_draws ! 1 = lognormal_creatinine example_draws 1"
      by blast
    then show ?thesis by (simp add: sel)
  qed
  have s1: "creatinine_shifted N example_draws ! 1 = 1 / 100 * 1.8"
  proof -
    from t1 f1 have "creatinine_shifted N example_draws ! 1 =
        creatinine_base N example_draws ! 1 * 1.8"
      by blast
    then show ?thesis unfolding c1 .
  qed
  have b1: "hgb_base N example_draws ! 1 = 13.801"
  proof -
    from t1 have "hgb_base N example_draws ! 1 =
        (if gender N example_draws ! 1 = ''F'' then normal_hgb_f example_draws 1
         else normal_hgb_m example_draws 1)"
      by blast
    then show ?thesis unfolding g1 by (simp add: sel)
  qed
  have hs1: "hemoglobin_shifted N example_draws ! 1 = 13.801 - 1.5"
  proof -
    from t1 f1 have "hemoglobin_shifted N example_draws ! 1 = hgb_base N example_draws ! 1 - 1.5"
      by blast
    then show ?thesis unfolding b1 .
  qed
  have hg1: "hemoglobin N example_draws ! 1 = 12.3"
  proof -
    from t1 have e: "hemoglobin N example_draws ! 1 =
        round_to 1 (min (max (hemoglobin_shifted N example_draws ! 1) 5.0) 19.0)"
      by blast
    show ?thesis unfolding e hs1 by (simp add: round_to_def rint_def Let_def)
  qed
  have gb1: "glucose_base N example_draws ! 1 = 122.5"
  proof -
    from t1 have "glucose_base N example_draws ! 1 = lognormal_glucose example_draws 1"
      by blast
    then show ?thesis by (simp add: sel)
  qed
  have gs1: "glucose_shifted N example_draws ! 1 = 122.5"
  proof -
    from t1 f1 have "glucose_shifted N example_draws ! 1 = glucose_base N example_draws ! 1"
      by blast
    then show ?thesis unfolding gb1 .
  qed
  have s3: "creatinine_shifted N example_draws ! 3 = 1 / 50"
  proof -
    from t3 f3 have "creatinine_shifted N example_draws ! 3 = lognormal_creatinine example_draws 3"
      by metis
    then show ?thesis by (simp add: sel)
  qed
  have gs3: "glucose_shifted N example_draws ! 3 = 124.5 * 1.3"
  proof -
    from t3 f3 have "glucose_shifted N example_draws ! 3 = lognormal_glucose example_draws 3 * 1.3"
      by metis
    then show ?thesis by (simp add: sel)
  qed
  have gl3: "glucose N example_draws ! 3 = 162"
  proof -
    from t3 have e: "glucose N example_draws ! 3 =
        int_of_float (round_to 0 (min (max (glucose_shifted N example_draws ! 3) 50) 500))"
      by blast
    show ?thesis unfolding e gs3 by (simp add: round_to_def rint_def int_of_float_def Let_def)
  qed
  show ?thesis
    using h1 h3 f1 f3 c1 s1 b1 hs1 hg1 gs1 s3 gs3 gl3 by blast
qed

subsection \<open>Hemoglobin under the kidney-disease shift; ICU length of stay\<close>



lemma example_sel:
  "choice_gender example_draws = (\<lambda>i. if even i then F else M)"
  "normal_hgb_f example_draws = (\<lambda>i. 12.2)"
  "binomial_icu example_draws = (\<lambda>i. i mod 4 = 0)"
  by (simp_all add: example_draws_def)



lemma nth_icu_los_days:
  "i < n \<Longrightarrow> icu_los_days n d ! i =
     (if had_icu_stay n d ! i = 1 then round_to 1 (min (max (lognormal_icu d i) 0.5) 30.0) else 0)"
  by (simp add: icu_los_days_def nth_np_where nth_eq_mask nth_np_round nth_np_clip nth_sample
      length_had_icu_stay np_lengths)

text \<open>
  Claim C9. In every row had_icu_stay is 0 or 1; icu_los_days is exactly 0.0 where it is 0
  and lies in [0.5, 30.0] where it is 1; so icu_los_days is positive exactly on the rows
  flagged as having an ICU stay.
\<close>

theorem icu_los_days_matches_flag:
  assumes "i < n"
  shows "(had_icu_stay n d ! i = 0 \<or> had_icu_stay n d ! i = 1) \<and>
    (had_icu_stay n d ! i = 0 \<longrightarrow> icu_los_days n d ! i = 0.0) \<and>
    (had_icu_stay n d ! i = 1 \<longrightarrow> 0.5 \<le> icu_los_days n d ! i \<and> icu_los_days n d ! i \<le> 30.0) \<and>
    (0 < icu_los_days n d ! i \<longleftrightarrow> had_icu_stay n d ! i = 1)"
proof -
  have flag: "had_icu_stay n d ! i = 0 \<or> had_icu_stay n d ! i = 1"
    using assms by (simp add: nth_had_icu_stay)
  have rng: "0.5 \<le> round_to 1 (min (max (lognormal_icu d i) 0.5) 30.0) \<and>
      round_to 1 (min (max (lognormal_icu d i) 0.5) 30.0) \<le> 30.0"
    using clip_round_range [of 5 1 "0.5" 300 "30.0" "lognormal_icu d i"] by simp
  show ?thesis
  proof (cases "had_icu_stay n d ! i = 1")
    case True
    then have "icu_los_days n d ! i = round_to 1 (min (max (lognormal_icu d i) 0.5) 30.0)"
      using assms by (simp add: nth_icu_los_days)
    then show ?thesis using True rng by simp
  next
    case False
    then have "icu_los_days n d ! i = 0" using assms by (simp add: nth_icu_los_days)
    then show ?thesis using False flag by simp
  qed
qed

theorem icu_los_days_matches_flag_witness:
  "(0::nat) < N \<and> (1::nat) < N \<and>
   had_icu_stay N example_draws ! 0 = 1 \<and>
   0.5 \<le> icu_los_days N example_draws ! 0 \<and> icu_los_days N example_draws ! 0 \<le> 30.0 \<and>
   0 < icu_los_days N example_draws ! 0 \<and>
   had_icu_stay N example_draws ! 1 = 0 \<and>
   icu_los_days N example_draws ! 1 = 0.0"
proof -
  have h0: "(0::nat) < N" and h1: "(1::nat) < N" by (simp_all add: N_def)
  have f0: "had_icu_stay N example_draws ! 0 = 1"
    using h0 by (simp add: nth_had_icu_stay example_sel)
  have f1: "had_icu_stay N example_draws ! 1 = 0"
    using h1 by (simp add: nth_had_icu_stay example_sel)
  show ?thesis
    using icu_los_days_matches_flag [OF h0, of example_draws]
      icu_los_days_matches_flag [OF h1, of example_draws] h0 h1 f0 f1
    by blast
qed

subsection \<open>The base missingness rule and its frame\<close>

lemma add_missing_inv:
  assumes "a < length s" "add_missing a pct idx s = Inr (r, s')"
  shows "r = Suc (length s) \<and>
    s' = s @ [FloatArr (float_cells (s ! a)), FloatArr (put_nan idx (float_cells (s ! a)))] \<and>
    list_all (\<lambda>i. i < len (s ! a)) idx"
  using assms
  by (auto simp: add_missing_def np_random_choice_def bind_def astype_float_def copy_def
      new_array_def setitem_idx_def ret_def nth_append to_float_cells length_float_cells
      list_update_append split: if_splits)

text \<open>
  Claim C10. When \<^verbatim>\<open>add_missing\<close> returns, its result is a new array: its address is past
  every address of the store before the call and differs from the argument's. Every array
  that was in the store before the call, the argument among them, is unchanged. The result
  is a float array of the argument's length; at every index that was not chosen it holds
  the argument's value cast to float, and at every chosen index it holds NaN.
\<close>

theorem add_missing_frame:
  assumes "a < length s" "add_missing a pct idx s = Inr (r, s')"
  shows "length s \<le> r \<and> r < length s' \<and> r \<noteq> a \<and>
    take (length s) s' = s \<and> s' ! a = s ! a \<and>
    s' ! r = FloatArr (float_cells (s' ! r)) \<and>
    length (float_cells (s' ! r)) = len (s ! a) \<and>
    (\<forall>i<len (s ! a). i \<notin> set idx \<longrightarrow> float_cells (s' ! r) ! i = float_cells (s ! a) ! i) \<and>
    (\<forall>i<len (s ! a). i \<in> set idx \<longrightarrow> float_cells (s' ! r) ! i = None)"
proof -
  note inv = add_missing_inv [OF assms]
  have r: "r = Suc (length s)" using inv by simp
  have s': "s' = s @ [FloatArr (float_cells (s ! a)), FloatArr (put_nan idx (float_cells (s ! a)))]"
    using inv by simp
  have cell: "s' ! r = FloatArr (put_nan idx (float_cells (s ! a)))"
    unfolding r s' by (simp add: nth_append)
  have old: "s' ! a = s ! a" unfolding s' using assms(1) by (simp add: nth_append)
  have "take (length s) s' = s" unfolding s' by simp
  moreover have "length s \<le> r \<and> r < length s' \<and> r \<noteq> a" unfolding r s' using assms(1) by simp
  moreover have "s' ! r = FloatArr (float_cells (s' ! r))" unfolding cell by simp
  moreover have "length (float_cells (s' ! r)) = len (s ! a)"
    unfolding cell by (simp add: length_put_nan length_float_cells)
  moreover have "\<forall>i<len (s ! a). i \<notin> set idx \<longrightarrow>
      float_cells (s' ! r) ! i = float_cells (s ! a) ! i"
    unfolding cell by (simp add: nth_put_nan length_float_cells)
  moreover have "\<forall>i<len (s ! a). i \<in> set idx \<longrightarrow> float_cells (s' ! r) ! i = None"
    unfolding cell by (simp add: nth_put_nan length_float_cells)
  ultimately show ?thesis using old by blast
qed

lemma add_missing_ten_ints:
  "add_missing 0 20 [3, 7] ten_ints =
     Inr (2, ten_ints @
       [FloatArr [Some 1, Some 2, Some 3, Some 4, Some 5, Some 6, Some 7, Some 8, Some 9, Some 10],
        FloatArr [Some 1, Some 2, Some 3, None, Some 5, Some 6, Some 7, None, Some 9, Some 10]])"
  by (simp add: add_missing_eq ten_ints_def put_nan_def)

theorem add_missing_frame_witness:
  "(0::nat) < length ten_ints \<and>
   (\<exists>r s'. add_missing 0 20 [3, 7] ten_ints = Inr (r, s') \<and>
      r = 2 \<and> r \<noteq> 0 \<and> take (length ten_ints) s' = ten_ints \<and>
      s' ! 0 = IntArr [1, 2, 3, 4, 5, 6, 7, 8, 9, 10] \<and>
      s' ! r = FloatArr [Some 1, Some 2, Some 3, None, Some 5, Some 6, Some 7, None, Some 9, Some 10] \<and>
      length (float_cells (s' ! r)) = 10)"
proof -
  have h: "(0::nat) < length ten_ints" by (simp add: ten_ints_def)
  note f = add_missing_frame [OF h add_missing_ten_ints]
  have "ten_ints ! 0 = IntArr [1, 2, 3, 4, 5, 6, 7, 8, 9, 10]" by (simp add: ten_ints_def)
  moreover have "len (ten_ints ! 0) = 10" by (simp add: ten_ints_def)
  moreover have "(ten_ints @
       [FloatArr [Some 1, Some 2, Some 3, Some 4, Some 5, Some 6, Some 7, Some 8, Some 9, Some 10],
        FloatArr [Some 1, Some 2, Some 3, None, Some 5, Some 6, Some 7, None, Some 9, Some 10]]) ! 2
      = FloatArr [Some 1, Some 2, Some 3, None, Some 5, Some 6, Some 7, None, Some 9, Some 10]"
    by (simp add: ten_ints_def)
  ultimately show ?thesis using f h add_missing_ten_ints by simp
qed





subsection \<open>Missing cells of the table\<close>










subsection \<open>The two missingness rules of glucose\<close>









subsection \<open>Shape of the table and the identifiers\<close>





end
